theory Spec2Isabelle
  imports Main
begin

section \<open>Python values, errors and containers\<close>

text \<open>
  The exceptions the modelled code can raise by itself. A raise is the value \<open>Inl e\<close>
  of the result type \<open>py_error + 'a\<close>.
\<close>

datatype py_error = IndexError | KeyError | TypeError | UnboundLocalError | ValueError

text \<open>
  \<open>xs[i]\<close> for an index \<open>i \<ge> 0\<close>, as produced by \<open>range\<close>: Python raises
  IndexError beyond the end of the sequence.
\<close>

definition py_index :: "'a list \<Rightarrow> nat \<Rightarrow> py_error + 'a" where
  "py_index xs i = (if i < length xs then Inr (xs ! i) else Inl IndexError)"

text \<open>
  A list comprehension whose body may raise: the elements are computed from left to
  right and the first exception ends the comprehension.
\<close>

fun comprehension :: "('a \<Rightarrow> py_error + 'b) \<Rightarrow> 'a list \<Rightarrow> py_error + 'b list" where
  "comprehension f [] = Inr []"
| "comprehension f (x # xs) =
     (case f x of
        Inl e \<Rightarrow> Inl e
      | Inr v \<Rightarrow> (case comprehension f xs of Inl e \<Rightarrow> Inl e | Inr vs \<Rightarrow> Inr (v # vs)))"

text \<open>
  An image is a list (rows) of lists (pixels) of lists (channels) of Python ints.
\<close>

type_synonym pixel_array = "int list list list"

text \<open>
  The metadata dictionary \<open>info\<close> maps chunk names to values of several shapes. The
  values are typed by the shape PyPNG gives them: an int (\<open>planes\<close>, \<open>bitdepth\<close>,
  \<open>compression\<close>), a bool (\<open>alpha\<close>, \<open>greyscale\<close>, \<open>interlace\<close>), the pair
  \<open>size\<close>, the triple \<open>physical\<close>, a palette, a colour, or anything else.
\<close>

datatype info_value =
    IntV int
  | BoolV bool
  | SizeV nat nat
  | PhysicalV int int bool
  | PaletteV "int list list"
  | ColourV "int list"
  | OtherV string

type_synonym info = "string \<rightharpoonup> info_value"

text \<open>
  \<open>v == n\<close> for an int literal \<open>n\<close>: an int compares by value, a bool compares as
  0 or 1, and a value of any other shape is unequal to every int.
\<close>

fun py_eq_int :: "info_value \<Rightarrow> int \<Rightarrow> bool" where
  "py_eq_int (IntV i) n = (i = n)"
| "py_eq_int (BoolV b) n = ((if b then 1 else 0) = n)"
| "py_eq_int _ n = False"

text \<open>
  A value used where Python wants an int, as in \<open>range(Z)\<close>: a bool counts as 0 or
  1; any other shape is a TypeError (\<open>None\<close>).
\<close>

fun py_int :: "info_value \<Rightarrow> int option" where
  "py_int (IntV i) = Some i"
| "py_int (BoolV b) = Some (if b then 1 else 0)"
| "py_int _ = None"

section \<open>pnglpng.png2list\<close>

text \<open>
  \<open>png.Reader(in_filename).asDirect()\<close> belongs to the PyPNG library. Its result
  \<open>(X, Y, pixels, info)\<close> is the input of the model: the width, the height, the rows
  as flat sequences of samples, and the dictionary of chunks.
\<close>

type_synonym asDirect = "nat \<times> nat \<times> int list list \<times> info"

text \<open>
  The three \<open>if\<close> statements on the bit depth, in the order of the source. A name
  that no branch has assigned is unbound: \<open>None\<close>.
\<close>

definition maxcolors_of :: "info_value \<Rightarrow> int option" where
  "maxcolors_of bitdepth =
     (let m1 = (if py_eq_int bitdepth 1 then Some 1 else None);
          m2 = (if py_eq_int bitdepth 8 then Some 255 else m1);
          m3 = (if py_eq_int bitdepth 16 then Some 65535 else m2)
      in m3)"

text \<open>
  \<open>png2list\<close>: \<open>info['planes']\<close> and \<open>info['bitdepth']\<close> raise KeyError when the
  key is missing; the nested comprehension raises IndexError when a row is missing or
  too short; the unbound \<open>maxcolors\<close> is noticed last, at the \<open>return\<close>. The channel
  count must be an int for \<open>range(Z)\<close>; the model raises the TypeError of a
  \<open>planes\<close> of another shape before the comprehension. The samples are ints, so
  \<open>int(...)\<close> around each of them changes nothing.
\<close>

definition png2list ::
  "asDirect \<Rightarrow> py_error + (nat \<times> nat \<times> int \<times> int \<times> pixel_array \<times> info)" where
  "png2list source =
     (case source of (X, Y, pixels, info) \<Rightarrow>
      (case info ''planes'' of
         None \<Rightarrow> Inl KeyError
       | Some planes \<Rightarrow>
      (case info ''bitdepth'' of
         None \<Rightarrow> Inl KeyError
       | Some bitdepth \<Rightarrow>
      (let maxcolors = maxcolors_of bitdepth;
           imagedata = pixels
       in (case py_int planes of
             Some Z \<Rightarrow>
               (case comprehension (\<lambda>y.
                       comprehension (\<lambda>x.
                         comprehension (\<lambda>z.
                           (case py_index imagedata y of
                              Inl e \<Rightarrow> Inl e
                            | Inr row \<Rightarrow> py_index row (x * nat Z + z)))
                         [0..<nat Z])
                       [0..<X])
                     [0..<Y] of
                  Inl e \<Rightarrow> Inl e
                | Inr list_3d \<Rightarrow>
                    (case maxcolors of
                       None \<Rightarrow> Inl UnboundLocalError
                     | Some m \<Rightarrow> Inr (X, Y, Z, m, list_3d, info)))
           | None \<Rightarrow> Inl TypeError)))))"

section \<open>pnglpng.list2png\<close>

text \<open>
  What reaches the PyPNG writer when \<open>list2png\<close> completes:
  \<open>png.Writer(X, Y, **info)\<close> and the rows pulled from \<open>flatten_2d\<close> by
  \<open>writer.write\<close>. The writer itself belongs to the library.
\<close>

record png_write =
  wr_width :: nat
  wr_height :: nat
  wr_info :: info
  wr_rows :: "int list list"

text \<open>
  The generator \<open>flatten_2d\<close> closes over \<open>X\<close>, \<open>Y\<close> and \<open>Z\<close> of
  \<open>list2png\<close>; they are arguments here. Each row is the comprehension over
  \<open>x\<close> in \<open>range(X)\<close> and, inside it, \<open>z\<close> in \<open>range(Z)\<close>; every
  \<open>list_3d[y][x][z]\<close> can raise IndexError.
\<close>

definition flatten_2d :: "pixel_array \<Rightarrow> nat \<Rightarrow> nat \<Rightarrow> nat \<Rightarrow> py_error + int list list" where
  "flatten_2d list_3d X Y Z =
     comprehension (\<lambda>y.
       comprehension (\<lambda>(x, z).
         (case py_index list_3d y of
            Inl e \<Rightarrow> Inl e
          | Inr row \<Rightarrow>
              (case py_index row x of
                 Inl e \<Rightarrow> Inl e
               | Inr pixel \<Rightarrow> py_index pixel z)))
       (List.product [0..<X] [0..<Z]))
     [0..<Y]"

text \<open>
  The block of \<open>list2png\<close> that overwrites the properties of \<open>info\<close> with the
  ones determined from the list, statement by statement.
\<close>

definition overwrite_info :: "nat \<Rightarrow> nat \<Rightarrow> nat \<Rightarrow> info \<Rightarrow> info" where
  "overwrite_info X Y Z info =
     (let info1 = info(''size'' \<mapsto> SizeV X Y);
          info2 = info1(''planes'' \<mapsto> IntV (int Z));
          info3 = (if ''palette'' \<in> dom info2 then info2(''palette'' := None) else info2);
          info4 = (if ''background'' \<in> dom info3 then info3(''background'' := None) else info3);
          info5 = (if Z mod 2 = 1 then info4(''alpha'' \<mapsto> BoolV False)
                   else info4(''alpha'' \<mapsto> BoolV True));
          info6 = (if Z < 3 then info5(''greyscale'' \<mapsto> BoolV True)
                   else info5(''greyscale'' \<mapsto> BoolV False))
      in info6)"

text \<open>
  \<open>list2png\<close> changes the dictionary it is given, so the model returns the caller's
  dictionary as it is after the call, together with the outcome. \<open>list_3d[0]\<close> and
  \<open>list_3d[0][0]\<close> raise IndexError on an empty image or an empty first row, before
  \<open>info\<close> is touched; an IndexError of \<open>flatten_2d\<close> comes during the write, after
  \<open>info\<close> has been changed.
\<close>

definition list2png :: "pixel_array \<Rightarrow> info \<Rightarrow> info \<times> (py_error + png_write)" where
  "list2png list_3d info =
     (let Y = length list_3d in
      (case py_index list_3d 0 of
         Inl e \<Rightarrow> (info, Inl e)
       | Inr row0 \<Rightarrow>
      (let X = length row0 in
      (case py_index row0 0 of
         Inl e \<Rightarrow> (info, Inl e)
       | Inr pixel0 \<Rightarrow>
      (let Z = length pixel0;
           Z = min Z 4;
           info = overwrite_info X Y Z info
       in (info,
           (case flatten_2d list_3d X Y Z of
              Inl e \<Rightarrow> Inl e
            | Inr rows \<Rightarrow>
                Inr \<lparr>wr_width = X, wr_height = Y, wr_info = info, wr_rows = rows\<rparr>)))))))"

section \<open>ScaleNxGUI: the single-file drivers\<close>

text \<open>
  The four rescaling functions are imported from the package \<open>scalenx\<close>; they are
  pure functions on images and a parameter of the model.
\<close>

record scalers =
  scalenx_scale2x :: "pixel_array \<Rightarrow> pixel_array"
  scalenx_scale3x :: "pixel_array \<Rightarrow> pixel_array"
  scalenxsfx_scale2x :: "pixel_array \<Rightarrow> pixel_array"
  scalenxsfx_scale3x :: "pixel_array \<Rightarrow> pixel_array"

text \<open>
  Choosing the working scaler: two \<open>if\<close> statements in each branch, none of which
  assigns \<open>chosen_scaler\<close> when \<open>size\<close> is neither 2 nor 3 (\<open>None\<close>).
\<close>

definition choose_scaler :: "scalers \<Rightarrow> int \<Rightarrow> bool \<Rightarrow> (pixel_array \<Rightarrow> pixel_array) option" where
  "choose_scaler sc size' sfx =
     (if sfx then
        (let c1 = (if size' = 2 then Some (scalenxsfx_scale2x sc) else None);
             c2 = (if size' = 3 then Some (scalenxsfx_scale3x sc) else c1)
         in c2)
      else
        (let c1 = (if size' = 2 then Some (scalenx_scale2x sc) else None);
             c2 = (if size' = 3 then Some (scalenx_scale3x sc) else c1)
         in c2))"

text \<open>
  The block "Fixing resolution to match original print size" with the assignment of
  the compression that follows it; it stands twice in the source, with the same text,
  in \<open>FileNx\<close> and in \<open>scale_file_png\<close>. A \<open>physical\<close> entry that is not a
  triple of two ints and a bool is a TypeError of the model.
\<close>

definition fix_resolution :: "int \<Rightarrow> info \<Rightarrow> py_error + info" where
  "fix_resolution size' info =
     (case (if ''physical'' \<in> dom info then
              (case info ''physical'' of
                 Some (PhysicalV x y u) \<Rightarrow> Inr (x, y, u)
               | _ \<Rightarrow> Inl TypeError)
            else Inr (3780, 3780, True)) of
        Inl e \<Rightarrow> Inl e
      | Inr (x_pixels_per_unit, y_pixels_per_unit, unit_is_meter) \<Rightarrow>
          (let x_pixels_per_unit = size' * x_pixels_per_unit;
               y_pixels_per_unit = size' * y_pixels_per_unit;
               info = info(''physical'' \<mapsto>
                        PhysicalV x_pixels_per_unit y_pixels_per_unit unit_is_meter);
               info = info(''compression'' \<mapsto> IntV 9)
           in Inr info))"

text \<open>
  \<open>scale_file_png\<close>: decode, rescale, fix the metadata, encode to the same name. The
  content of the file, as the reader reports it, is the argument \<open>source\<close>. The
  unbound \<open>chosen_scaler\<close> is noticed when it is called.
\<close>

definition scale_file_png :: "scalers \<Rightarrow> asDirect \<Rightarrow> int \<Rightarrow> bool \<Rightarrow> py_error + png_write" where
  "scale_file_png sc source size' sfx =
     (case png2list source of
        Inl e \<Rightarrow> Inl e
      | Inr (X, Y, Z, maxcolors, image3d, info) \<Rightarrow>
          (case choose_scaler sc size' sfx of
             None \<Rightarrow> Inl UnboundLocalError
           | Some chosen_scaler \<Rightarrow>
               (let scaled_image = chosen_scaler image3d in
                (case fix_resolution size' info of
                   Inl e \<Rightarrow> Inl e
                 | Inr info \<Rightarrow> snd (list2png scaled_image info)))))"

text \<open>
  A file name with the suffix \<open>pathlib\<close> computes for it: the code reads nothing else
  of a path.
\<close>

record path =
  path_str :: string
  path_suffix :: string

text \<open>
  The file types of the open dialog of \<open>FileNx\<close>, as written in the source: a label
  and a pattern, the pattern being extensions separated by spaces.
\<close>

definition FileNx_filetypes :: "(string \<times> string) list" where
  "FileNx_filetypes =
     [(''Supported formats'', ''.png .ppm .pgm .pbm''),
      (''PNG'', ''.png''),
      (''PNM'', ''.ppm .pgm .pbm'')]"

fun split_spaces :: "string \<Rightarrow> string list" where
  "split_spaces [] = [[]]"
| "split_spaces (c # cs) =
     (if c = CHR '' '' then [] # split_spaces cs
      else (case split_spaces cs of
              [] \<Rightarrow> [[c]]
            | w # ws \<Rightarrow> (c # w) # ws))"

definition open_dialog_offers :: "string \<Rightarrow> bool" where
  "open_dialog_offers ext =
     (\<exists>filetype \<in> set FileNx_filetypes. ext \<in> set (split_spaces (snd filetype)))"

text \<open>
  \<open>pnmlpnm.pnm2list\<close> belongs to the package \<open>pypnm\<close>; its result
  \<open>(X, Y, Z, maxcolors, image3d)\<close> is an input of the model.
\<close>

type_synonym pnm_data = "nat \<times> nat \<times> int \<times> int \<times> pixel_array"

text \<open>
  The reading step of \<open>FileNx\<close>: the codec is chosen by the suffix of the name the
  open dialog returned; a PNM file gets a dummy \<open>info\<close> holding the bit depth only.
\<close>

definition FileNx_read ::
  "path \<Rightarrow> asDirect \<Rightarrow> pnm_data \<Rightarrow> py_error + (int \<times> int \<times> pixel_array \<times> info)" where
  "FileNx_read sourcefilename png_file pnm_file =
     (if path_suffix sourcefilename = ''.png'' then
        (case png2list png_file of
           Inl e \<Rightarrow> Inl e
         | Inr (X, Y, Z, maxcolors, image3d, info) \<Rightarrow> Inr (Z, maxcolors, image3d, info))
      else if path_suffix sourcefilename \<in> set [''.ppm'', ''.pgm'', ''.pbm''] then
        (case pnm_file of (X, Y, Z, maxcolors, image3d) \<Rightarrow>
           (let info = Map.empty;
                info = (if maxcolors > 255 then info(''bitdepth'' \<mapsto> IntV 16)
                        else info(''bitdepth'' \<mapsto> IntV 8))
            in Inr (Z, maxcolors, image3d, info)))
      else Inl ValueError)"

text \<open>
  \<open>FileNx\<close> is modelled by what it reads and writes; its calls to the user interface
  and the file types it offers in the save dialog decide nothing of that and are left
  out. What a run leaves behind: nothing when a dialog was cancelled (the
  empty name), a PNG or a PNM written, or nothing when the name chosen for the result
  has none of the suffixes the last \<open>if\<close> knows.
\<close>

datatype written =
    Cancelled
  | Wrote_png png_write
  | Wrote_pnm pixel_array int
  | Wrote_nothing

definition FileNx ::
  "scalers \<Rightarrow> path \<Rightarrow> asDirect \<Rightarrow> pnm_data \<Rightarrow> path \<Rightarrow> int \<Rightarrow> bool \<Rightarrow> py_error + written" where
  "FileNx sc sourcefilename png_file pnm_file resultfilename size' sfx =
     (if path_str sourcefilename = [] then Inr Cancelled
      else
        (case FileNx_read sourcefilename png_file pnm_file of
           Inl e \<Rightarrow> Inl e
         | Inr (Z, maxcolors, image3d, info) \<Rightarrow>
        (case choose_scaler sc size' sfx of
           None \<Rightarrow> Inl UnboundLocalError
         | Some chosen_scaler \<Rightarrow>
        (let scaled_image = chosen_scaler image3d in
        (case fix_resolution size' info of
           Inl e \<Rightarrow> Inl e
         | Inr info \<Rightarrow>
             (if path_str resultfilename = [] then Inr Cancelled
              else if path_suffix resultfilename = ''.png'' then
                (case snd (list2png scaled_image info) of
                   Inl e \<Rightarrow> Inl e
                 | Inr w \<Rightarrow> Inr (Wrote_png w))
              else if path_suffix resultfilename \<in> set [''.ppm'', ''.pgm''] then
                Inr (Wrote_pnm scaled_image maxcolors)
              else Inr Wrote_nothing))))))"

section \<open>ScaleNxGUI.FolderNx\<close>

text \<open>
  A task handed to the pool: the function and its arguments
  \<open>(runningfilename, size, sfx)\<close>.
\<close>

datatype task =
    Scale_file_png path int bool
  | Scale_file_pnm path int bool

text \<open>
  What \<open>FolderNx\<close> does is the sequence of its calls to the user interface and to the
  pool.
\<close>

datatype event =
    UIWaiting
  | UIBusy
  | UINormal
  | Pool_create
  | Apply_async task
  | Pool_close
  | Pool_join

text \<open>The body of the loop "Feeding the pool": two independent \<open>if\<close> statements.\<close>

definition feed :: "int \<Rightarrow> bool \<Rightarrow> path \<Rightarrow> event list" where
  "feed size' sfx runningfilename =
     (if path_suffix runningfilename = ''.png''
      then [Apply_async (Scale_file_png runningfilename size' sfx)] else [])
     @
     (if path_suffix runningfilename \<in> set [''.ppm'', ''.pgm'']
      then [Apply_async (Scale_file_pnm runningfilename size' sfx)] else [])"

text \<open>
  \<open>FolderNx\<close>: the directory dialog returns \<open>sourcedir\<close> (empty when cancelled),
  and \<open>path.rglob('*.*')\<close> yields the entries of the tree, in its order; both are
  arguments.
\<close>

definition FolderNx :: "string \<Rightarrow> path list \<Rightarrow> int \<Rightarrow> bool \<Rightarrow> event list" where
  "FolderNx sourcedir rglob size' sfx =
     [UIWaiting] @
     (if sourcedir = [] then [UINormal]
      else
        [UIBusy, Pool_create] @
        concat (map (feed size' sfx) rglob) @
        [Pool_close, Pool_join, UINormal])"

text \<open>The tasks a run has submitted, in the order of submission.\<close>

fun submitted :: "event list \<Rightarrow> task list" where
  "submitted [] = []"
| "submitted (Apply_async t # es) = t # submitted es"
| "submitted (e # es) = submitted es"




section \<open>Shapes\<close>

text \<open>
  The invariant of the data model: \<open>Y\<close> rows of \<open>X\<close> pixels of \<open>Z\<close> samples.
\<close>

definition rectangular :: "nat \<Rightarrow> nat \<Rightarrow> nat \<Rightarrow> pixel_array \<Rightarrow> bool" where
  "rectangular Y X Z list_3d \<longleftrightarrow>
     length list_3d = Y \<and>
     (\<forall>row \<in> set list_3d. length row = X \<and> (\<forall>pixel \<in> set row. length pixel = Z))"

text \<open>
  The value of the nested comprehension of \<open>png2list\<close> when no index is out of range.
\<close>

definition partition_rows :: "nat \<Rightarrow> nat \<Rightarrow> nat \<Rightarrow> int list list \<Rightarrow> pixel_array" where
  "partition_rows X Y Z pixels =
     map (\<lambda>y. map (\<lambda>x. map (\<lambda>z. pixels ! y ! (x * Z + z)) [0..<Z]) [0..<X]) [0..<Y]"

section \<open>The file between the writer and the reader\<close>

text \<open>
  The PyPNG library stands between \<open>list2png\<close> and \<open>png2list\<close>. What a round
  trip asks of it: reading the file back gives the width, the height and the rows that
  were written, the \<open>planes\<close> that were written, and the bit depth of the file.
\<close>

definition reads_back :: "int \<Rightarrow> png_write \<Rightarrow> asDirect \<Rightarrow> bool" where
  "reads_back bitdepth w source =
     (case source of (X, Y, pixels, info) \<Rightarrow>
        X = wr_width w \<and> Y = wr_height w \<and> pixels = wr_rows w \<and>
        info ''planes'' = wr_info w ''planes'' \<and>
        info ''bitdepth'' = Some (IntV bitdepth))"

section \<open>Eligible files and their tasks\<close>

text \<open>
  An entry of the traversal is eligible when its suffix is one of those \<open>FolderNx\<close>
  tests for: \<open>.png\<close> for the PNG codec, \<open>.ppm\<close> and \<open>.pgm\<close> for the PNM
  codec.
\<close>

definition eligible :: "path \<Rightarrow> bool" where
  "eligible p \<longleftrightarrow> path_suffix p = ''.png'' \<or> path_suffix p \<in> set [''.ppm'', ''.pgm'']"

text \<open>The task of an eligible file, and the file of a task.\<close>

definition task_for :: "int \<Rightarrow> bool \<Rightarrow> path \<Rightarrow> task" where
  "task_for size' sfx p =
     (if path_suffix p = ''.png'' then Scale_file_png p size' sfx
      else Scale_file_pnm p size' sfx)"

fun task_file :: "task \<Rightarrow> path" where
  "task_file (Scale_file_png runningfilename size' sfx) = runningfilename"
| "task_file (Scale_file_pnm runningfilename size' sfx) = runningfilename"

section \<open>A scaler for examples\<close>

text \<open>
  The scalers of the package \<open>scalenx\<close> are a parameter of the drivers. Where a
  driver is evaluated on an example, this stand-in takes their place: every pixel
  repeated \<open>n\<close> times in both directions.
\<close>

definition nearest :: "nat \<Rightarrow> pixel_array \<Rightarrow> pixel_array" where
  "nearest n image3d = concat (map (\<lambda>row. replicate n (concat (map (replicate n) row))) image3d)"

definition nearest_scalers :: scalers where
  "nearest_scalers =
     \<lparr>scalenx_scale2x = nearest 2, scalenx_scale3x = nearest 3,
      scalenxsfx_scale2x = nearest 2, scalenxsfx_scale3x = nearest 3\<rparr>"

section \<open>Facts about comprehensions\<close>

lemma comprehension_Inr_length:
  "comprehension f xs = Inr ys \<Longrightarrow> length ys = length xs"
  by (induction xs arbitrary: ys) (auto split: sum.splits)

lemma comprehension_Inr_nth:
  "comprehension f xs = Inr ys \<Longrightarrow> i < length xs \<Longrightarrow> f (xs ! i) = Inr (ys ! i)"
proof (induction xs arbitrary: ys i)
  case Nil
  then show ?case by simp
next
  case (Cons x xs)
  then show ?case by (cases i) (auto split: sum.splits)
qed

lemma comprehension_total:
  "(\<And>x. x \<in> set xs \<Longrightarrow> f x = Inr (g x)) \<Longrightarrow> comprehension f xs = Inr (map g xs)"
  by (induction xs) auto

section \<open>Decoding\<close>

lemma flat_offset_bound: "x < X \<Longrightarrow> z < Z \<Longrightarrow> x * Z + z < X * (Z::nat)"
proof -
  assume a: "x < X" and b: "z < Z"
  have "x * Z + z < Suc x * Z" using b by simp
  also have "\<dots> \<le> X * Z" using a by (intro mult_le_mono1) simp
  finally show ?thesis .
qed

lemma png2list_comprehension:
  assumes "Y \<le> length pixels" and "\<And>y. y < Y \<Longrightarrow> X * Z \<le> length (pixels ! y)"
  shows "comprehension (\<lambda>y.
           comprehension (\<lambda>x.
             comprehension (\<lambda>z.
               (case py_index pixels y of
                  Inl e \<Rightarrow> Inl e
                | Inr row \<Rightarrow> py_index row (x * Z + z)))
             [0..<Z])
           [0..<X])
         [0..<Y] = Inr (partition_rows X Y Z pixels)"
  unfolding partition_rows_def
proof (rule comprehension_total)
  fix y assume "y \<in> set [0..<Y]"
  then have y: "y < Y" by simp
  show "comprehension (\<lambda>x.
             comprehension (\<lambda>z.
               (case py_index pixels y of
                  Inl e \<Rightarrow> Inl e
                | Inr row \<Rightarrow> py_index row (x * Z + z)))
             [0..<Z])
           [0..<X] = Inr (map (\<lambda>x. map (\<lambda>z. pixels ! y ! (x * Z + z)) [0..<Z]) [0..<X])"
  proof (rule comprehension_total)
    fix x assume "x \<in> set [0..<X]"
    then have x: "x < X" by simp
    show "comprehension (\<lambda>z.
               (case py_index pixels y of
                  Inl e \<Rightarrow> Inl e
                | Inr row \<Rightarrow> py_index row (x * Z + z)))
             [0..<Z] = Inr (map (\<lambda>z. pixels ! y ! (x * Z + z)) [0..<Z])"
    proof (rule comprehension_total)
      fix z assume "z \<in> set [0..<Z]"
      then have z: "z < Z" by simp
      have "x * Z + z < X * Z" using x z by (rule flat_offset_bound)
      then have "x * Z + z < length (pixels ! y)" using assms(2)[OF y] by simp
      moreover have "y < length pixels" using y assms(1) by simp
      ultimately show "(case py_index pixels y of
                  Inl e \<Rightarrow> Inl e
                | Inr row \<Rightarrow> py_index row (x * Z + z)) = Inr (pixels ! y ! (x * Z + z))"
        by (simp add: py_index_def)
    qed
  qed
qed

lemma png2list_decodes:
  assumes "info ''planes'' = Some (IntV Z)"
    and "info ''bitdepth'' = Some bitdepth"
    and "maxcolors_of bitdepth = Some m"
    and "Y \<le> length pixels"
    and "\<And>y. y < Y \<Longrightarrow> X * nat Z \<le> length (pixels ! y)"
  shows "png2list (X, Y, pixels, info) = Inr (X, Y, Z, m, partition_rows X Y (nat Z) pixels, info)"
  using assms(1-3) png2list_comprehension[OF assms(4,5)]
  by (simp add: png2list_def)

lemma partition_rows_nth:
  "y < Y \<Longrightarrow> x < X \<Longrightarrow> z < Z \<Longrightarrow> partition_rows X Y Z pixels ! y ! x ! z = pixels ! y ! (x * Z + z)"
  by (simp add: partition_rows_def)

lemma partition_rows_shape:
  "length (partition_rows X Y Z pixels) = Y"
  "y < Y \<Longrightarrow> length (partition_rows X Y Z pixels ! y) = X"
  "y < Y \<Longrightarrow> x < X \<Longrightarrow> length (partition_rows X Y Z pixels ! y ! x) = Z"
  by (simp_all add: partition_rows_def)

text \<open>
  Claim C7. For every image the reader delivers with as many rows as its height and
  rows as long as its width times its channel count, \<open>png2list\<close> returns, and the
  \<open>maxcolors\<close> it returns is fixed by the reported bit depth: 1 for depth 1, 255 for
  depth 8, 65535 for depth 16.
\<close>

theorem png2list_maxcolors:
  assumes "info ''planes'' = Some (IntV Z)"
    and "info ''bitdepth'' = Some (IntV bitdepth)"
    and "bitdepth \<in> {1, 8, 16}"
    and "Y \<le> length pixels"
    and "\<forall>y < Y. X * nat Z \<le> length (pixels ! y)"
  shows "\<exists>list_3d.
           png2list (X, Y, pixels, info) =
             Inr (X, Y, Z,
                  (if bitdepth = 1 then 1 else if bitdepth = 8 then 255 else 65535),
                  list_3d, info)"
proof -
  have "maxcolors_of (IntV bitdepth) =
          Some (if bitdepth = 1 then 1 else if bitdepth = 8 then 255 else 65535)"
    using assms(3) by (auto simp: maxcolors_of_def)
  then show ?thesis
    using png2list_decodes[OF assms(1,2) _ assms(4)] assms(5) by blast
qed

theorem png2list_maxcolors_witness:
  "\<exists>list_3d.
     png2list (2, 1, [[10, 20, 30, 40, 50, 60]],
               [''planes'' \<mapsto> IntV 3, ''bitdepth'' \<mapsto> IntV 16]) =
       Inr (2, 1, 3, 65535, list_3d, [''planes'' \<mapsto> IntV 3, ''bitdepth'' \<mapsto> IntV 16])"
  using png2list_maxcolors
    [where info = "[''planes'' \<mapsto> IntV 3, ''bitdepth'' \<mapsto> IntV 16]"
       and Z = 3 and bitdepth = 16 and Y = 1 and X = 2
       and pixels = "[[10, 20, 30, 40, 50, 60]]"]
  by simp

text \<open>
  Claim C8. \<open>png2list\<close> builds \<open>Y\<close> rows of \<open>X\<close> pixels of \<open>Z\<close> samples,
  and the sample at row \<open>y\<close>, pixel \<open>x\<close>, channel \<open>z\<close> is the element at
  offset \<open>x * Z + z\<close> of row \<open>y\<close> of the materialised rows.
\<close>

theorem png2list_partition:
  assumes "info ''planes'' = Some (IntV Z)"
    and "info ''bitdepth'' = Some (IntV bitdepth)"
    and "bitdepth \<in> {1, 8, 16}"
    and "Y \<le> length pixels"
    and "\<forall>y < Y. X * nat Z \<le> length (pixels ! y)"
  shows "\<exists>maxcolors list_3d.
           png2list (X, Y, pixels, info) = Inr (X, Y, Z, maxcolors, list_3d, info) \<and>
           length list_3d = Y \<and>
           (\<forall>y < Y. length (list_3d ! y) = X \<and>
              (\<forall>x < X. length (list_3d ! y ! x) = nat Z \<and>
                 (\<forall>z < nat Z. list_3d ! y ! x ! z = pixels ! y ! (x * nat Z + z))))"
proof -
  obtain m where m: "maxcolors_of (IntV bitdepth) = Some m"
    using assms(3) by (auto simp: maxcolors_of_def)
  have "png2list (X, Y, pixels, info) =
          Inr (X, Y, Z, m, partition_rows X Y (nat Z) pixels, info)"
    using png2list_decodes[OF assms(1,2) m assms(4)] assms(5) by blast
  then show ?thesis
    by (intro exI[of _ m] exI[of _ "partition_rows X Y (nat Z) pixels"])
       (simp add: partition_rows_nth partition_rows_shape)
qed

theorem png2list_partition_witness:
  "\<exists>maxcolors list_3d.
     png2list (2, 1, [[10, 20, 30, 40, 50, 60]],
               [''planes'' \<mapsto> IntV 3, ''bitdepth'' \<mapsto> IntV 8]) =
       Inr (2, 1, 3, maxcolors, list_3d, [''planes'' \<mapsto> IntV 3, ''bitdepth'' \<mapsto> IntV 8]) \<and>
     list_3d ! 0 ! 1 ! 2 = [[10, 20, 30, 40, 50, 60]] ! 0 ! (1 * 3 + 2) \<and>
     list_3d ! 0 ! 1 ! 2 = (60::int)"
proof -
  obtain maxcolors list_3d where
    d: "png2list (2, 1, [[10, 20, 30, 40, 50, 60]],
               [''planes'' \<mapsto> IntV 3, ''bitdepth'' \<mapsto> IntV 8]) =
       Inr (2, 1, 3, maxcolors, list_3d, [''planes'' \<mapsto> IntV 3, ''bitdepth'' \<mapsto> IntV 8])"
    and n: "\<forall>y < (1::nat). length (list_3d ! y) = 2 \<and>
              (\<forall>x < (2::nat). length (list_3d ! y ! x) = nat 3 \<and>
                 (\<forall>z < nat 3. list_3d ! y ! x ! z =
                    [[10, 20, 30, 40, 50, 60]] ! y ! (x * nat 3 + z)))"
    using png2list_partition
      [where info = "[''planes'' \<mapsto> IntV 3, ''bitdepth'' \<mapsto> IntV 8]"
         and Z = 3 and bitdepth = 8 and Y = 1 and X = 2
         and pixels = "[[10, 20, 30, 40, 50, 60]]"]
    by auto
  from n have "list_3d ! 0 ! 1 ! 2 = [[10, 20, 30, 40, 50, 60::int]] ! 0 ! (1 * nat 3 + 2)"
    by auto
  then have "list_3d ! 0 ! 1 ! 2 = [[10, 20, 30, 40, 50, 60]] ! 0 ! (1 * 3 + 2) \<and>
     list_3d ! 0 ! 1 ! 2 = (60::int)"
    by simp
  with d show ?thesis by blast
qed

section \<open>Flattening rows and partitioning them again\<close>

lemma map_nth_take: "n \<le> length xs \<Longrightarrow> map ((!) xs) [0..<n] = take n xs"
  by (rule nth_equalityI) simp_all

lemma map_nth_fun: "map (\<lambda>i. f (xs ! i)) [0..<length xs] = map f xs"
  by (rule nth_equalityI) simp_all

lemma flatten_row:
  assumes "length row = X" and "\<forall>pixel \<in> set row. Z' \<le> length pixel"
  shows "map (\<lambda>(x, z). row ! x ! z) (List.product [0..<X] [0..<Z']) = concat (map (take Z') row)"
proof -
  have "map (\<lambda>(x, z). row ! x ! z) (List.product [0..<X] [0..<Z']) =
          concat (map (\<lambda>x. map ((!) (row ! x)) [0..<Z']) [0..<X])"
    by (simp add: product_concat_map map_concat comp_def)
  also have "\<dots> = concat (map (\<lambda>x. take Z' (row ! x)) [0..<X])"
    using assms by (intro arg_cong[where f = concat] map_cong refl) (simp add: map_nth_take)
  also have "\<dots> = concat (map (take Z') row)"
    using assms(1) map_nth_fun[of "take Z'" row] by simp
  finally show ?thesis .
qed

lemma flatten_2d_rectangular:
  assumes "rectangular Y X Z list_3d" and "Z' \<le> Z"
  shows "flatten_2d list_3d X Y Z' = Inr (map (\<lambda>row. concat (map (take Z') row)) list_3d)"
proof -
  have len: "length list_3d = Y"
    and row: "\<And>y. y < Y \<Longrightarrow> length (list_3d ! y) = X"
    and pix: "\<And>y pixel. y < Y \<Longrightarrow> pixel \<in> set (list_3d ! y) \<Longrightarrow> length pixel = Z"
    using assms(1) by (auto simp: rectangular_def)
  have "flatten_2d list_3d X Y Z' =
          Inr (map (\<lambda>y. concat (map (take Z') (list_3d ! y))) [0..<Y])"
    unfolding flatten_2d_def
  proof (rule comprehension_total)
    fix y assume "y \<in> set [0..<Y]"
    then have y: "y < Y" by simp
    have "comprehension (\<lambda>(x, z).
             (case py_index list_3d y of
                Inl e \<Rightarrow> Inl e
              | Inr row \<Rightarrow>
                  (case py_index row x of
                     Inl e \<Rightarrow> Inl e
                   | Inr pixel \<Rightarrow> py_index pixel z)))
           (List.product [0..<X] [0..<Z']) =
          Inr (map (\<lambda>(x, z). list_3d ! y ! x ! z) (List.product [0..<X] [0..<Z']))"
    proof (rule comprehension_total)
      fix xz assume "xz \<in> set (List.product [0..<X] [0..<Z'])"
      then obtain x z where xz: "xz = (x, z)" and x: "x < X" and z: "z < Z'" by auto
      have "list_3d ! y ! x \<in> set (list_3d ! y)" using x row[OF y] by simp
      then have "z < length (list_3d ! y ! x)" using pix[OF y] z assms(2) by simp
      then show "(case xz of (x, z) \<Rightarrow>
             (case py_index list_3d y of
                Inl e \<Rightarrow> Inl e
              | Inr row \<Rightarrow>
                  (case py_index row x of
                     Inl e \<Rightarrow> Inl e
                   | Inr pixel \<Rightarrow> py_index pixel z))) =
           Inr (case xz of (x, z) \<Rightarrow> list_3d ! y ! x ! z)"
        using xz x y len row[OF y] by (simp add: py_index_def)
    qed
    also have "map (\<lambda>(x, z). list_3d ! y ! x ! z) (List.product [0..<X] [0..<Z']) =
                 concat (map (take Z') (list_3d ! y))"
      using row[OF y] pix[OF y] assms(2) by (intro flatten_row) auto
    finally show "comprehension (\<lambda>(x, z).
             (case py_index list_3d y of
                Inl e \<Rightarrow> Inl e
              | Inr row \<Rightarrow>
                  (case py_index row x of
                     Inl e \<Rightarrow> Inl e
                   | Inr pixel \<Rightarrow> py_index pixel z)))
           (List.product [0..<X] [0..<Z']) = Inr (concat (map (take Z') (list_3d ! y)))" .
  qed
  also have "map (\<lambda>y. concat (map (take Z') (list_3d ! y))) [0..<Y] =
               map (\<lambda>row. concat (map (take Z') row)) list_3d"
    using len map_nth_fun[of "\<lambda>row. concat (map (take Z') row)" list_3d] by simp
  finally show ?thesis .
qed

lemma nth_concat_uniform:
  "\<forall>xs \<in> set xss. length xs = n \<Longrightarrow> x < length xss \<Longrightarrow> z < n \<Longrightarrow>
     concat xss ! (x * n + z) = xss ! x ! z"
proof (induction xss arbitrary: x)
  case Nil
  then show ?case by simp
next
  case (Cons a xss)
  show ?case
  proof (cases x)
    case 0
    then show ?thesis using Cons.prems by (simp add: nth_append)
  next
    case (Suc x')
    then have "concat (a # xss) ! (x * n + z) = concat xss ! (x' * n + z)"
      using Cons.prems by (simp add: nth_append)
    then show ?thesis using Cons.IH[of x'] Cons.prems Suc by simp
  qed
qed

lemma partition_flatten:
  assumes "rectangular Y X Z list_3d" and "Z' \<le> Z"
  shows "partition_rows X Y Z' (map (\<lambda>row. concat (map (take Z') row)) list_3d) =
           map (map (take Z')) list_3d"
proof -
  have len: "length list_3d = Y"
    and row: "\<And>y. y < Y \<Longrightarrow> length (list_3d ! y) = X"
    and pix: "\<And>y pixel. y < Y \<Longrightarrow> pixel \<in> set (list_3d ! y) \<Longrightarrow> length pixel = Z"
    using assms(1) by (auto simp: rectangular_def)
  have cell: "concat (map (take Z') (list_3d ! y)) ! (x * Z' + z) = take Z' (list_3d ! y ! x) ! z"
    if "y < Y" "x < X" "z < Z'" for y x z
  proof -
    have "\<forall>xs \<in> set (map (take Z') (list_3d ! y)). length xs = Z'"
      using pix[OF that(1)] assms(2) by auto
    then have "concat (map (take Z') (list_3d ! y)) ! (x * Z' + z) =
                 map (take Z') (list_3d ! y) ! x ! z"
      using that row[OF that(1)] by (intro nth_concat_uniform) simp_all
    then show ?thesis using that row[OF that(1)] by simp
  qed
  have plen: "min (length (list_3d ! y ! x)) Z' = Z'" if "y < Y" "x < X" for y x
  proof -
    have "list_3d ! y ! x \<in> set (list_3d ! y)" using that row[OF that(1)] by simp
    then show ?thesis using pix[OF that(1)] assms(2) by simp
  qed
  show ?thesis
    unfolding partition_rows_def
    by (rule nth_equalityI; simp add: len)
       (rule nth_equalityI; simp add: len row; rule nth_equalityI; simp add: len row plen cell)
qed

section \<open>Encoding\<close>

lemma overwrite_info_size: "overwrite_info X Y Z info ''size'' = Some (SizeV X Y)"
  by (simp add: overwrite_info_def Let_def)

lemma overwrite_info_planes: "overwrite_info X Y Z info ''planes'' = Some (IntV (int Z))"
  by (simp add: overwrite_info_def Let_def)

lemma overwrite_info_alpha: "overwrite_info X Y Z info ''alpha'' = Some (BoolV (even Z))"
  by (auto simp: overwrite_info_def Let_def even_iff_mod_2_eq_zero)

lemma overwrite_info_greyscale: "overwrite_info X Y Z info ''greyscale'' = Some (BoolV (Z < 3))"
  by (simp add: overwrite_info_def Let_def)

lemma overwrite_info_palette: "overwrite_info X Y Z info ''palette'' = None"
  by (auto simp: overwrite_info_def Let_def domIff)

lemma overwrite_info_background: "overwrite_info X Y Z info ''background'' = None"
  by (auto simp: overwrite_info_def Let_def domIff)

lemma overwrite_info_other:
  "k \<notin> {''size'', ''planes'', ''palette'', ''background'', ''alpha'', ''greyscale''} \<Longrightarrow>
     overwrite_info X Y Z info k = info k"
  by (simp add: overwrite_info_def Let_def)

lemma list2png_info:
  assumes "list_3d \<noteq> []" and "hd list_3d \<noteq> []"
  shows "fst (list2png list_3d info) =
           overwrite_info (length (hd list_3d)) (length list_3d)
             (min (length (hd (hd list_3d))) 4) info"
proof -
  obtain row0 rows where l: "list_3d = row0 # rows" using assms(1) by (cases list_3d) auto
  obtain pixel0 pixels where r: "row0 = pixel0 # pixels" using assms(2) l by (cases row0) auto
  show ?thesis by (simp add: l r list2png_def py_index_def Let_def)
qed

lemma list2png_Inr:
  assumes "list2png list_3d info = (info', Inr w)"
  shows "list_3d \<noteq> [] \<and> hd list_3d \<noteq> [] \<and>
         info' = overwrite_info (length (hd list_3d)) (length list_3d)
                   (min (length (hd (hd list_3d))) 4) info \<and>
         wr_info w = info' \<and> wr_width w = length (hd list_3d) \<and>
         wr_height w = length list_3d"
proof (cases list_3d)
  case Nil
  then show ?thesis using assms by (simp add: list2png_def py_index_def)
next
  case l: (Cons row0 rows)
  show ?thesis
  proof (cases row0)
    case Nil
    then show ?thesis using assms l by (simp add: list2png_def py_index_def)
  next
    case (Cons pixel0 pixels)
    then show ?thesis using assms l
      by (auto simp: list2png_def py_index_def Let_def split: sum.splits)
  qed
qed

lemma list2png_rectangular:
  assumes "rectangular Y X Z list_3d" and "0 < Y" and "0 < X"
  shows "list2png list_3d info =
           (overwrite_info X Y (min Z 4) info,
            Inr \<lparr>wr_width = X, wr_height = Y,
                 wr_info = overwrite_info X Y (min Z 4) info,
                 wr_rows = map (\<lambda>row. concat (map (take (min Z 4)) row)) list_3d\<rparr>)"
proof -
  have len: "length list_3d = Y" using assms(1) by (simp add: rectangular_def)
  then have r0: "list_3d ! 0 \<in> set list_3d" using assms(2) by simp
  then have rlen: "length (list_3d ! 0) = X" using assms(1) by (simp add: rectangular_def)
  then have "list_3d ! 0 ! 0 \<in> set (list_3d ! 0)" using assms(3) by simp
  then have plen: "length (list_3d ! 0 ! 0) = Z" using assms(1) r0 by (simp add: rectangular_def)
  have "flatten_2d list_3d X Y (min Z 4) =
          Inr (map (\<lambda>row. concat (map (take (min Z 4)) row)) list_3d)"
    using assms(1) by (rule flatten_2d_rectangular) simp
  then show ?thesis
    using len rlen plen assms(2,3) by (simp add: list2png_def py_index_def Let_def)
qed

lemma take_all_rectangular:
  assumes "rectangular Y X Z list_3d" and "Z \<le> n"
  shows "map (map (take n)) list_3d = list_3d"
proof -
  have "map (take n) row = row" if "row \<in> set list_3d" for row
    using assms that by (intro map_idI) (simp add: rectangular_def)
  then show ?thesis by (rule map_idI)
qed

lemma decode_written:
  assumes "rectangular Y X Z list_3d" and "0 < Y" and "0 < X"
    and "snd (list2png list_3d info) = Inr w"
    and "reads_back bitdepth w source"
    and "maxcolors_of (IntV bitdepth) = Some m"
  shows "\<exists>rinfo. png2list source =
           Inr (X, Y, int (min Z 4), m, map (map (take (min Z 4))) list_3d, rinfo)"
proof -
  let ?Z = "min Z 4"
  let ?rows = "map (\<lambda>row. concat (map (take ?Z) row)) list_3d"
  have w: "w = \<lparr>wr_width = X, wr_height = Y, wr_info = overwrite_info X Y ?Z info,
                wr_rows = ?rows\<rparr>"
    using list2png_rectangular[OF assms(1-3), of info] assms(4) by simp
  obtain rinfo where s: "source = (X, Y, ?rows, rinfo)"
    and p: "rinfo ''planes'' = Some (IntV (int ?Z))"
    and b: "rinfo ''bitdepth'' = Some (IntV bitdepth)"
    using assms(5) by (cases source) (auto simp: reads_back_def w overwrite_info_planes)
  have len: "length list_3d = Y"
    and row: "\<And>y. y < Y \<Longrightarrow> length (list_3d ! y) = X"
    and pix: "\<And>y pixel. y < Y \<Longrightarrow> pixel \<in> set (list_3d ! y) \<Longrightarrow> length pixel = Z"
    using assms(1) by (auto simp: rectangular_def)
  have rl: "X * nat (int ?Z) \<le> length (?rows ! y)" if "y < Y" for y
  proof -
    have "length (concat (map (take ?Z) (list_3d ! y))) =
            sum_list (map (\<lambda>pixel. ?Z) (list_3d ! y))"
      unfolding length_concat map_map comp_def
      using pix[OF that] by (intro arg_cong[where f = sum_list] map_cong refl) simp
    then show ?thesis using that len row[OF that] by (simp add: sum_list_triv)
  qed
  have "png2list (X, Y, ?rows, rinfo) =
          Inr (X, Y, int ?Z, m, partition_rows X Y (nat (int ?Z)) ?rows, rinfo)"
    using p b assms(6) _ rl by (rule png2list_decodes) (simp add: len)
  then show ?thesis
    using partition_flatten[OF assms(1), of ?Z] s by simp
qed


text \<open>
  Claim C1. For a rectangular image with 1 to 4 channels and a bit depth of 8 or 16,
  \<open>list2png\<close> writes the rows flattened, and \<open>png2list\<close> on the file read back
  returns the same image, with its dimensions and channel count.
\<close>

theorem round_trip:
  assumes "rectangular Y X Z list_3d" and "0 < Y" and "0 < X"
    and "Z \<in> {1, 2, 3, 4}" and "bitdepth \<in> {8, 16}"
  shows "\<exists>w. snd (list2png list_3d info) = Inr w \<and>
           wr_width w = X \<and> wr_height w = Y \<and>
           wr_info w ''planes'' = Some (IntV (int Z)) \<and>
           wr_rows w = map concat list_3d \<and>
           (\<forall>source. reads_back bitdepth w source \<longrightarrow>
              (\<exists>rinfo. png2list source =
                 Inr (X, Y, int Z, (if bitdepth = 8 then 255 else 65535), list_3d, rinfo)))"
proof -
  have z: "min Z 4 = Z" using assms(4) by auto
  have t: "map (map (take Z)) list_3d = list_3d"
    using assms(1) by (rule take_all_rectangular) simp
  have m: "maxcolors_of (IntV bitdepth) = Some (if bitdepth = 8 then 255 else 65535)"
    using assms(5) by (auto simp: maxcolors_of_def)
  let ?w = "\<lparr>wr_width = X, wr_height = Y, wr_info = overwrite_info X Y Z info,
             wr_rows = map (\<lambda>row. concat (map (take Z) row)) list_3d\<rparr>"
  have w: "snd (list2png list_3d info) = Inr ?w"
    using list2png_rectangular[OF assms(1-3), of info] z by simp
  have "map (\<lambda>row. concat (map (take Z) row)) list_3d = map concat (map (map (take Z)) list_3d)"
    by simp
  then have r: "wr_rows ?w = map concat list_3d" using t by simp
  have d: "\<exists>rinfo. png2list source =
             Inr (X, Y, int Z, (if bitdepth = 8 then 255 else 65535), list_3d, rinfo)"
    if "reads_back bitdepth ?w source" for source
    using decode_written[OF assms(1-3) w that m] z t by simp
  show ?thesis
    using w r d by (intro exI[of _ ?w]) (simp add: overwrite_info_planes)
qed

theorem round_trip_witness:
  "\<exists>rinfo. png2list (2, 2, [[1, 2, 3, 4, 5, 6], [7, 8, 9, 10, 11, 12]],
                     [''planes'' \<mapsto> IntV 3, ''bitdepth'' \<mapsto> IntV 8]) =
     Inr (2, 2, 3, 255, [[[1, 2, 3], [4, 5, 6]], [[7, 8, 9], [10, 11, 12]]], rinfo)"
proof -
  let ?l = "[[[1, 2, 3], [4, 5, 6]], [[7, 8, 9], [10, 11, 12::int]]]"
  have "rectangular 2 2 3 ?l" by (simp add: rectangular_def)
  from round_trip[OF this, of 8 Map.empty]
  obtain w where w: "wr_width w = 2" "wr_height w = 2"
      "wr_info w ''planes'' = Some (IntV (int 3))" "wr_rows w = map concat ?l"
    and d: "\<And>source. reads_back 8 w source \<Longrightarrow>
              \<exists>rinfo. png2list source =
                Inr (2, 2, int 3, (if (8::int) = 8 then 255 else 65535), ?l, rinfo)"
    by auto
  have "reads_back 8 w (2, 2, [[1, 2, 3, 4, 5, 6], [7, 8, 9, 10, 11, 12]],
                        [''planes'' \<mapsto> IntV 3, ''bitdepth'' \<mapsto> IntV 8])"
    using w by (simp add: reads_back_def)
  from d[OF this] show ?thesis by simp
qed

text \<open>
  Claim C2. On a non-empty rectangular image \<open>list2png\<close> writes \<open>size\<close>,
  \<open>planes\<close>, \<open>alpha\<close> and \<open>greyscale\<close> as the shape of the image gives them
  (the channel count clamped to 4), whatever the caller's dictionary held; two
  encodings of the same image with different dictionaries agree on these four entries.
\<close>

theorem derived_metadata:
  assumes "rectangular Y X Z list_3d" and "0 < Y" and "0 < X"
  shows "\<exists>w w'. snd (list2png list_3d info) = Inr w \<and>
           snd (list2png list_3d info') = Inr w' \<and>
           wr_info w ''size'' = Some (SizeV X Y) \<and>
           wr_info w ''planes'' = Some (IntV (int (min Z 4))) \<and>
           wr_info w ''alpha'' = Some (BoolV (even (min Z 4))) \<and>
           wr_info w ''greyscale'' = Some (BoolV (Z < 3)) \<and>
           (\<forall>k \<in> {''size'', ''planes'', ''alpha'', ''greyscale''}. wr_info w' k = wr_info w k)"
proof -
  have g: "min Z 4 < 3 \<longleftrightarrow> Z < 3" by auto
  show ?thesis
    using list2png_rectangular[OF assms, of info] list2png_rectangular[OF assms, of info'] g
    by (simp add: overwrite_info_size overwrite_info_planes overwrite_info_alpha
          overwrite_info_greyscale)
qed

theorem derived_metadata_witness:
  "\<exists>w w'. snd (list2png [[[1, 2, 3], [4, 5, 6]]]
                  [''size'' \<mapsto> SizeV 9 9, ''planes'' \<mapsto> IntV 1, ''alpha'' \<mapsto> BoolV True]) = Inr w \<and>
     snd (list2png [[[1, 2, 3], [4, 5, 6]]] [''greyscale'' \<mapsto> BoolV True]) = Inr w' \<and>
     wr_info w ''size'' = Some (SizeV 2 1) \<and>
     wr_info w ''planes'' = Some (IntV 3) \<and>
     wr_info w ''alpha'' = Some (BoolV False) \<and>
     wr_info w ''greyscale'' = Some (BoolV False) \<and>
     wr_info w' ''size'' = wr_info w ''size'' \<and>
     wr_info w' ''planes'' = wr_info w ''planes'' \<and>
     wr_info w' ''alpha'' = wr_info w ''alpha'' \<and>
     wr_info w' ''greyscale'' = wr_info w ''greyscale''"
proof -
  have "rectangular 1 2 3 [[[1, 2, 3], [4, 5, 6]]]" by (simp add: rectangular_def)
  from derived_metadata[OF this, of
      "[''size'' \<mapsto> SizeV 9 9, ''planes'' \<mapsto> IntV 1, ''alpha'' \<mapsto> BoolV True]"
      "[''greyscale'' \<mapsto> BoolV True]"]
  show ?thesis by simp
qed

text \<open>
  Claim C5. For a rectangular image with more than 4 channels, the rows \<open>list2png\<close>
  writes hold the first 4 channels of each pixel, the \<open>planes\<close> entry written is 4,
  and \<open>png2list\<close> on the file read back returns 4 channels: the image cut to its
  first 4 channels.
\<close>

theorem channel_clamp:
  assumes "rectangular Y X Z list_3d" and "0 < Y" and "0 < X"
    and "4 < Z" and "bitdepth \<in> {1, 8, 16}"
  shows "\<exists>w. snd (list2png list_3d info) = Inr w \<and>
           wr_width w = X \<and> wr_height w = Y \<and>
           wr_info w ''planes'' = Some (IntV 4) \<and>
           wr_rows w = map (\<lambda>row. concat (map (take 4) row)) list_3d \<and>
           (\<forall>source. reads_back bitdepth w source \<longrightarrow>
              (\<exists>maxcolors rinfo. png2list source =
                 Inr (X, Y, 4, maxcolors, map (map (take 4)) list_3d, rinfo)))"
proof -
  have z: "min Z 4 = 4" using assms(4) by simp
  obtain m where m: "maxcolors_of (IntV bitdepth) = Some m"
    using assms(5) by (auto simp: maxcolors_of_def)
  let ?w = "\<lparr>wr_width = X, wr_height = Y, wr_info = overwrite_info X Y 4 info,
             wr_rows = map (\<lambda>row. concat (map (take 4) row)) list_3d\<rparr>"
  have w: "snd (list2png list_3d info) = Inr ?w"
    using list2png_rectangular[OF assms(1-3), of info] z by simp
  have d: "\<exists>maxcolors rinfo. png2list source =
             Inr (X, Y, 4, maxcolors, map (map (take 4)) list_3d, rinfo)"
    if "reads_back bitdepth ?w source" for source
    using decode_written[OF assms(1-3) w that m] z by auto
  show ?thesis
    using w d by (intro exI[of _ ?w]) (simp add: overwrite_info_planes)
qed

theorem channel_clamp_witness:
  "\<exists>w. snd (list2png [[[1, 2, 3, 4, 5], [6, 7, 8, 9, 10]]] Map.empty) = Inr w \<and>
     wr_info w ''planes'' = Some (IntV 4) \<and>
     wr_rows w = [[1, 2, 3, 4, 6, 7, 8, 9]] \<and>
     (\<exists>maxcolors rinfo.
        png2list (2, 1, [[1, 2, 3, 4, 6, 7, 8, 9]],
                  [''planes'' \<mapsto> IntV 4, ''bitdepth'' \<mapsto> IntV 8]) =
          Inr (2, 1, 4, maxcolors, [[[1, 2, 3, 4], [6, 7, 8, 9]]], rinfo))"
proof -
  let ?l = "[[[1, 2, 3, 4, 5], [6, 7, 8, 9, 10::int]]]"
  have "rectangular 1 2 5 ?l" by (simp add: rectangular_def)
  from channel_clamp[OF this, of 8 Map.empty]
  obtain w where s: "snd (list2png ?l Map.empty) = Inr w"
    and w: "wr_width w = 2" "wr_height w = 1" "wr_info w ''planes'' = Some (IntV 4)"
      "wr_rows w = map (\<lambda>row. concat (map (take 4) row)) ?l"
    and d: "\<And>source. reads_back 8 w source \<Longrightarrow>
              \<exists>maxcolors rinfo. png2list source =
                Inr (2, 1, 4, maxcolors, map (map (take 4)) ?l, rinfo)"
    by auto
  have "reads_back 8 w (2, 1, [[1, 2, 3, 4, 6, 7, 8, 9]],
                        [''planes'' \<mapsto> IntV 4, ''bitdepth'' \<mapsto> IntV 8])"
    using w by (simp add: reads_back_def)
  from d[OF this] s w show ?thesis by (intro exI[of _ w]) simp
qed

text \<open>
  Claim C6. Whenever \<open>list2png\<close> gets as far as the writer (the image has a first
  row and the row a first pixel), the dictionary it passes on holds neither
  \<open>palette\<close> nor \<open>background\<close>, whatever the dictionary it was given and whatever
  the channel count.
\<close>

theorem palette_background_removed:
  assumes "list_3d \<noteq> []" and "hd list_3d \<noteq> []"
  shows "fst (list2png list_3d info) ''palette'' = None \<and>
         fst (list2png list_3d info) ''background'' = None \<and>
         (\<forall>w. snd (list2png list_3d info) = Inr w \<longrightarrow>
            wr_info w ''palette'' = None \<and> wr_info w ''background'' = None)"
proof -
  have "wr_info w ''palette'' = None \<and> wr_info w ''background'' = None"
    if "snd (list2png list_3d info) = Inr w" for w
  proof -
    have "list2png list_3d info = (fst (list2png list_3d info), Inr w)"
      using that by (simp add: prod_eq_iff)
    from list2png_Inr[OF this] show ?thesis
      by (simp add: overwrite_info_palette overwrite_info_background)
  qed
  then show ?thesis
    using list2png_info[OF assms, of info]
    by (simp add: overwrite_info_palette overwrite_info_background)
qed

theorem palette_background_removed_witness:
  "\<exists>w. snd (list2png [[[0], [1]]]
              [''palette'' \<mapsto> PaletteV [[0, 0, 0], [255, 255, 255]],
               ''background'' \<mapsto> ColourV [0], ''gamma'' \<mapsto> OtherV ''0.45'']) = Inr w \<and>
     wr_info w ''palette'' = None \<and> wr_info w ''background'' = None \<and>
     wr_info w ''gamma'' = Some (OtherV ''0.45'')"
proof -
  let ?l = "[[[0], [1::int]]]"
  let ?i = "[''palette'' \<mapsto> PaletteV [[0, 0, 0], [255, 255, 255]],
             ''background'' \<mapsto> ColourV [0], ''gamma'' \<mapsto> OtherV ''0.45'']"
  have "rectangular 1 2 1 ?l" by (simp add: rectangular_def)
  from list2png_rectangular[OF this, of ?i]
  have s: "snd (list2png ?l ?i) =
             Inr \<lparr>wr_width = 2, wr_height = 1, wr_info = overwrite_info 2 1 1 ?i,
                   wr_rows = [[0, 1]]\<rparr>"
    by simp
  have g: "overwrite_info 2 1 1 ?i ''gamma'' = Some (OtherV ''0.45'')"
    by (simp add: overwrite_info_other)
  from palette_background_removed[of ?l ?i] s g show ?thesis by simp
qed

text \<open>
  Claim C10. \<open>list2png\<close> works on the caller's dictionary: when it returns, that
  dictionary holds the derived \<open>size\<close>, \<open>planes\<close>, \<open>alpha\<close> and
  \<open>greyscale\<close>, holds neither \<open>palette\<close> nor \<open>background\<close>, has every other
  key as before, and is the dictionary the writer received.
\<close>

theorem info_mutated_in_place:
  assumes "list2png list_3d info = (info', Inr w)"
  shows "list_3d \<noteq> [] \<and> hd list_3d \<noteq> [] \<and> wr_info w = info' \<and>
         info' ''size'' = Some (SizeV (length (hd list_3d)) (length list_3d)) \<and>
         info' ''planes'' = Some (IntV (int (min (length (hd (hd list_3d))) 4))) \<and>
         info' ''alpha'' = Some (BoolV (even (min (length (hd (hd list_3d))) 4))) \<and>
         info' ''greyscale'' = Some (BoolV (length (hd (hd list_3d)) < 3)) \<and>
         info' ''palette'' = None \<and> info' ''background'' = None \<and>
         (\<forall>k. k \<notin> {''size'', ''planes'', ''alpha'', ''greyscale'', ''palette'', ''background''}
              \<longrightarrow> info' k = info k)"
proof -
  have g: "min (length (hd (hd list_3d))) 4 < 3 \<longleftrightarrow> length (hd (hd list_3d)) < 3" by auto
  have o: "\<forall>k. k \<notin> {''size'', ''planes'', ''alpha'', ''greyscale'', ''palette'', ''background''}
              \<longrightarrow> overwrite_info X Y Z info k = info k" for X Y Z
    by (simp add: overwrite_info_other)
  from list2png_Inr[OF assms] g o show ?thesis
    by (simp add: overwrite_info_size overwrite_info_planes overwrite_info_alpha
          overwrite_info_greyscale overwrite_info_palette overwrite_info_background)
qed

theorem info_mutated_in_place_witness:
  "\<exists>info' w.
     list2png [[[0, 255], [1, 255]]]
       [''palette'' \<mapsto> PaletteV [[0, 0, 0]], ''planes'' \<mapsto> IntV 1,
        ''physical'' \<mapsto> PhysicalV 7560 7560 True] = (info', Inr w) \<and>
     wr_info w = info' \<and>
     info' ''size'' = Some (SizeV 2 1) \<and> info' ''planes'' = Some (IntV 2) \<and>
     info' ''alpha'' = Some (BoolV True) \<and> info' ''greyscale'' = Some (BoolV True) \<and>
     info' ''palette'' = None \<and>
     info' ''physical'' = Some (PhysicalV 7560 7560 True)"
proof -
  let ?l = "[[[0, 255], [1, 255::int]]]"
  let ?i = "[''palette'' \<mapsto> PaletteV [[0, 0, 0]], ''planes'' \<mapsto> IntV 1,
             ''physical'' \<mapsto> PhysicalV 7560 7560 True]"
  have "rectangular 1 2 2 ?l" by (simp add: rectangular_def)
  from list2png_rectangular[OF this, of ?i]
  obtain info' w where s: "list2png ?l ?i = (info', Inr w)" by simp
  from info_mutated_in_place[OF s] have "wr_info w = info' \<and>
     info' ''size'' = Some (SizeV 2 1) \<and> info' ''planes'' = Some (IntV 2) \<and>
     info' ''alpha'' = Some (BoolV True) \<and> info' ''greyscale'' = Some (BoolV True) \<and>
     info' ''palette'' = None \<and>
     info' ''physical'' = Some (PhysicalV 7560 7560 True)"
    by simp
  with s show ?thesis by blast
qed

text \<open>
  An image without a first row, or whose first row has no pixel, cannot be encoded: the
  detection of the dimensions raises IndexError and the dictionary stays as it was.
\<close>

lemma list2png_empty:
  "list2png [] info = (info, Inl IndexError)"
  "list2png ([] # rows) info = (info, Inl IndexError)"
  by (simp_all add: list2png_def py_index_def)

text \<open>
  A bit depth other than 1, 8 or 16 leaves \<open>maxcolors\<close> unbound, which the
  \<open>return\<close> of \<open>png2list\<close> notices.
\<close>

lemma png2list_other_depth:
  assumes "info ''planes'' = Some (IntV Z)"
    and "info ''bitdepth'' = Some (IntV bitdepth)"
    and "bitdepth \<notin> {1, 8, 16}"
    and "Y \<le> length pixels"
    and "\<And>y. y < Y \<Longrightarrow> X * nat Z \<le> length (pixels ! y)"
  shows "png2list (X, Y, pixels, info) = Inl UnboundLocalError"
proof -
  have "maxcolors_of (IntV bitdepth) = None"
    using assms(3) by (simp add: maxcolors_of_def)
  then show ?thesis
    using assms(1,2) png2list_comprehension[OF assms(4,5)] by (simp add: png2list_def)
qed

section \<open>The drivers\<close>

lemma fix_resolution_physical:
  "info ''physical'' = Some (PhysicalV x y u) \<Longrightarrow>
     fix_resolution n info =
       Inr (info(''physical'' \<mapsto> PhysicalV (n * x) (n * y) u, ''compression'' \<mapsto> IntV 9))"
  by (simp add: fix_resolution_def domIff)

lemma fix_resolution_absent:
  "info ''physical'' = None \<Longrightarrow>
     fix_resolution n info =
       Inr (info(''physical'' \<mapsto> PhysicalV (n * 3780) (n * 3780) True,
                 ''compression'' \<mapsto> IntV 9))"
  by (simp add: fix_resolution_def domIff)

lemma fix_resolution_Inr:
  assumes "fix_resolution n info = Inr info'"
  shows "info' ''compression'' = Some (IntV 9) \<and>
         (\<forall>x y u. info ''physical'' = Some (PhysicalV x y u) \<longrightarrow>
            info' ''physical'' = Some (PhysicalV (n * x) (n * y) u)) \<and>
         (info ''physical'' = None \<longrightarrow>
            info' ''physical'' = Some (PhysicalV (n * 3780) (n * 3780) True))"
  using assms
  by (auto simp: fix_resolution_def domIff split: if_splits option.splits info_value.splits)

lemma list2png_keeps:
  assumes "snd (list2png list_3d info) = Inr w"
  shows "wr_info w ''physical'' = info ''physical'' \<and>
         wr_info w ''compression'' = info ''compression''"
proof -
  have "list2png list_3d info = (fst (list2png list_3d info), Inr w)"
    using assms by (simp add: prod_eq_iff)
  from list2png_Inr[OF this] show ?thesis by (simp add: overwrite_info_other)
qed

lemma choose_scaler_Some: "choose_scaler sc n sfx = Some f \<Longrightarrow> n \<in> {2, 3}"
  by (auto simp: choose_scaler_def Let_def split: if_splits)

lemma png2list_info:
  "png2list (X, Y, pixels, info) = Inr (X', Y', Z, m, list_3d, info') \<Longrightarrow> info' = info"
  by (auto simp: png2list_def Let_def split: option.splits info_value.splits sum.splits)

lemma written_metadata:
  assumes "fix_resolution n info = Inr info'" and "snd (list2png list_3d info') = Inr w"
  shows "wr_info w ''compression'' = Some (IntV 9) \<and>
         (\<forall>x y u. info ''physical'' = Some (PhysicalV x y u) \<longrightarrow>
            wr_info w ''physical'' = Some (PhysicalV (n * x) (n * y) u)) \<and>
         (info ''physical'' = None \<longrightarrow>
            wr_info w ''physical'' = Some (PhysicalV (n * 3780) (n * 3780) True))"
  using fix_resolution_Inr[OF assms(1)] list2png_keeps[OF assms(2)] by simp

text \<open>
  Whatever a driver writes as a PNG went through the adjustment: the factor was 2 or 3,
  and the metadata written is the adjusted one.
\<close>

lemma drivers_write_adjusted:
  "(\<forall>w. scale_file_png sc (X, Y, pixels, info) size' sfx = Inr w \<longrightarrow>
      size' \<in> {2, 3} \<and>
      wr_info w ''compression'' = Some (IntV 9) \<and>
      (\<forall>x0 y0 u. info ''physical'' = Some (PhysicalV x0 y0 u) \<longrightarrow>
         wr_info w ''physical'' = Some (PhysicalV (size' * x0) (size' * y0) u)) \<and>
      (info ''physical'' = None \<longrightarrow>
         wr_info w ''physical'' = Some (PhysicalV (size' * 3780) (size' * 3780) True))) \<and>
   (\<forall>w. FileNx sc sourcefilename (X, Y, pixels, info) pnm_file resultfilename size' sfx =
          Inr (Wrote_png w) \<longrightarrow>
      size' \<in> {2, 3} \<and>
      wr_info w ''compression'' = Some (IntV 9) \<and>
      (path_suffix sourcefilename = ''.png'' \<longrightarrow>
         (\<forall>x0 y0 u. info ''physical'' = Some (PhysicalV x0 y0 u) \<longrightarrow>
            wr_info w ''physical'' = Some (PhysicalV (size' * x0) (size' * y0) u)) \<and>
         (info ''physical'' = None \<longrightarrow>
            wr_info w ''physical'' = Some (PhysicalV (size' * 3780) (size' * 3780) True))) \<and>
      (path_suffix sourcefilename \<noteq> ''.png'' \<longrightarrow>
         wr_info w ''physical'' = Some (PhysicalV (size' * 3780) (size' * 3780) True)))"
proof (intro conjI allI impI)
  fix w assume a: "scale_file_png sc (X, Y, pixels, info) size' sfx = Inr w"
  then obtain X' Y' Z m image3d rinfo chosen info'
    where d: "png2list (X, Y, pixels, info) = Inr (X', Y', Z, m, image3d, rinfo)"
      and c: "choose_scaler sc size' sfx = Some chosen"
      and f: "fix_resolution size' rinfo = Inr info'"
      and l: "snd (list2png (chosen image3d) info') = Inr w"
    by (auto simp: scale_file_png_def Let_def split: sum.splits option.splits)
  have r: "rinfo = info" using d by (rule png2list_info)
  show "size' \<in> {2, 3}" using c by (rule choose_scaler_Some)
  show "wr_info w ''compression'' = Some (IntV 9)" using written_metadata[OF f l] by simp
  show "wr_info w ''physical'' = Some (PhysicalV (size' * x0) (size' * y0) u)"
    if "info ''physical'' = Some (PhysicalV x0 y0 u)" for x0 y0 u
    using written_metadata[OF f l] r that by simp
  show "wr_info w ''physical'' = Some (PhysicalV (size' * 3780) (size' * 3780) True)"
    if "info ''physical'' = None"
    using written_metadata[OF f l] r that by simp
next
  fix w
  assume a: "FileNx sc sourcefilename (X, Y, pixels, info) pnm_file resultfilename size' sfx =
               Inr (Wrote_png w)"
  then obtain Z m image3d rinfo chosen info'
    where d: "FileNx_read sourcefilename (X, Y, pixels, info) pnm_file =
                Inr (Z, m, image3d, rinfo)"
      and c: "choose_scaler sc size' sfx = Some chosen"
      and f: "fix_resolution size' rinfo = Inr info'"
      and l: "snd (list2png (chosen image3d) info') = Inr w"
    by (auto simp: FileNx_def Let_def split: sum.splits option.splits if_splits)
  show "size' \<in> {2, 3}" using c by (rule choose_scaler_Some)
  show "wr_info w ''compression'' = Some (IntV 9)" using written_metadata[OF f l] by simp
  {
    assume s: "path_suffix sourcefilename = ''.png''"
    then have r: "rinfo = info"
      using d by (auto simp: FileNx_read_def split: sum.splits dest: png2list_info)
    show "wr_info w ''physical'' = Some (PhysicalV (size' * x0) (size' * y0) u)"
      if "info ''physical'' = Some (PhysicalV x0 y0 u)" for x0 y0 u
      using written_metadata[OF f l] r that by simp
    show "wr_info w ''physical'' = Some (PhysicalV (size' * 3780) (size' * 3780) True)"
      if "info ''physical'' = None"
      using written_metadata[OF f l] r that by simp
  }
  {
    assume s: "path_suffix sourcefilename \<noteq> ''.png''"
    then have "rinfo ''physical'' = None"
      using d by (auto simp: FileNx_read_def Let_def split: if_splits prod.splits)
    then show "wr_info w ''physical'' = Some (PhysicalV (size' * 3780) (size' * 3780) True)"
      using written_metadata[OF f l] by simp
  }
qed


lemma scale_file_png_writes:
  assumes "png2list source = Inr (X, Y, Z, maxcolors, image3d, info)"
    and "choose_scaler sc size' sfx = Some chosen"
    and "fix_resolution size' info = Inr info'"
    and "rectangular Y' X' Z' (chosen image3d)" and "0 < Y'" and "0 < X'"
  shows "scale_file_png sc source size' sfx =
           Inr \<lparr>wr_width = X', wr_height = Y',
                wr_info = overwrite_info X' Y' (min Z' 4) info',
                wr_rows = map (\<lambda>row. concat (map (take (min Z' 4)) row)) (chosen image3d)\<rparr>"
  using assms(1-3) list2png_rectangular[OF assms(4-6), of info']
  by (simp add: scale_file_png_def)

lemma FileNx_writes_png:
  assumes "path_str sourcefilename \<noteq> []"
    and "FileNx_read sourcefilename png_file pnm_file = Inr (Z, maxcolors, image3d, info)"
    and "choose_scaler sc size' sfx = Some chosen"
    and "fix_resolution size' info = Inr info'"
    and "path_str resultfilename \<noteq> []" and "path_suffix resultfilename = ''.png''"
    and "rectangular Y' X' Z' (chosen image3d)" and "0 < Y'" and "0 < X'"
  shows "FileNx sc sourcefilename png_file pnm_file resultfilename size' sfx =
           Inr (Wrote_png \<lparr>wr_width = X', wr_height = Y',
                wr_info = overwrite_info X' Y' (min Z' 4) info',
                wr_rows = map (\<lambda>row. concat (map (take (min Z' 4)) row)) (chosen image3d)\<rparr>)"
  using assms(1-6) list2png_rectangular[OF assms(7-9), of info']
  by (simp add: FileNx_def)

lemma adjusted_entries:
  "overwrite_info X Y Z (info(''physical'' \<mapsto> p, ''compression'' \<mapsto> c)) ''physical'' = Some p"
  "overwrite_info X Y Z (info(''physical'' \<mapsto> p, ''compression'' \<mapsto> c)) ''compression'' = Some c"
  by (simp_all add: overwrite_info_other)

text \<open>
  Claim C3. The adjustment of the metadata between decode and encode sets the physical
  resolution to the decoded one multiplied by the factor on both axes, with its unit,
  or to 3780 times the factor on both axes, in metres, when the decoded metadata has
  none, and sets the compression to 9. \<open>scale_file_png\<close>, and \<open>FileNx\<close> saving a
  PNG, write their file with exactly this metadata whenever the image decodes, the
  factor selects a scaler and the rescaled image is rectangular; and nothing they
  write has a factor other than 2 or 3, another compression or another resolution.
\<close>

theorem resolution_and_compression:
  "(\<forall>x0 y0 u. info ''physical'' = Some (PhysicalV x0 y0 u) \<longrightarrow>
      fix_resolution size' info =
        Inr (info(''physical'' \<mapsto> PhysicalV (size' * x0) (size' * y0) u,
                  ''compression'' \<mapsto> IntV 9))) \<and>
   (info ''physical'' = None \<longrightarrow>
      fix_resolution size' info =
        Inr (info(''physical'' \<mapsto> PhysicalV (size' * 3780) (size' * 3780) True,
                  ''compression'' \<mapsto> IntV 9))) \<and>
   (\<forall>source X Y Z maxcolors image3d chosen Y' X' Z'.
      png2list source = Inr (X, Y, Z, maxcolors, image3d, info) \<and>
      choose_scaler sc size' sfx = Some chosen \<and>
      rectangular Y' X' Z' (chosen image3d) \<and> 0 < Y' \<and> 0 < X' \<longrightarrow>
      (\<forall>x0 y0 u. info ''physical'' = Some (PhysicalV x0 y0 u) \<longrightarrow>
         (\<exists>w. scale_file_png sc source size' sfx = Inr w \<and>
              wr_width w = X' \<and> wr_height w = Y' \<and>
              wr_info w ''physical'' = Some (PhysicalV (size' * x0) (size' * y0) u) \<and>
              wr_info w ''compression'' = Some (IntV 9))) \<and>
      (info ''physical'' = None \<longrightarrow>
         (\<exists>w. scale_file_png sc source size' sfx = Inr w \<and>
              wr_width w = X' \<and> wr_height w = Y' \<and>
              wr_info w ''physical'' = Some (PhysicalV (size' * 3780) (size' * 3780) True) \<and>
              wr_info w ''compression'' = Some (IntV 9)))) \<and>
   (\<forall>sourcefilename png_file pnm_file resultfilename Z maxcolors image3d chosen Y' X' Z'.
      path_str sourcefilename \<noteq> [] \<and>
      FileNx_read sourcefilename png_file pnm_file = Inr (Z, maxcolors, image3d, info) \<and>
      choose_scaler sc size' sfx = Some chosen \<and>
      path_str resultfilename \<noteq> [] \<and> path_suffix resultfilename = ''.png'' \<and>
      rectangular Y' X' Z' (chosen image3d) \<and> 0 < Y' \<and> 0 < X' \<longrightarrow>
      (\<forall>x0 y0 u. info ''physical'' = Some (PhysicalV x0 y0 u) \<longrightarrow>
         (\<exists>w. FileNx sc sourcefilename png_file pnm_file resultfilename size' sfx =
                Inr (Wrote_png w) \<and>
              wr_info w ''physical'' = Some (PhysicalV (size' * x0) (size' * y0) u) \<and>
              wr_info w ''compression'' = Some (IntV 9))) \<and>
      (info ''physical'' = None \<longrightarrow>
         (\<exists>w. FileNx sc sourcefilename png_file pnm_file resultfilename size' sfx =
                Inr (Wrote_png w) \<and>
              wr_info w ''physical'' = Some (PhysicalV (size' * 3780) (size' * 3780) True) \<and>
              wr_info w ''compression'' = Some (IntV 9)))) \<and>
   (\<forall>X Y pixels w. scale_file_png sc (X, Y, pixels, info) size' sfx = Inr w \<longrightarrow>
      size' \<in> {2, 3} \<and>
      wr_info w ''compression'' = Some (IntV 9) \<and>
      (\<forall>x0 y0 u. info ''physical'' = Some (PhysicalV x0 y0 u) \<longrightarrow>
         wr_info w ''physical'' = Some (PhysicalV (size' * x0) (size' * y0) u)) \<and>
      (info ''physical'' = None \<longrightarrow>
         wr_info w ''physical'' = Some (PhysicalV (size' * 3780) (size' * 3780) True))) \<and>
   (\<forall>sourcefilename X Y pixels pnm_file resultfilename w.
      FileNx sc sourcefilename (X, Y, pixels, info) pnm_file resultfilename size' sfx =
        Inr (Wrote_png w) \<longrightarrow>
      size' \<in> {2, 3} \<and>
      wr_info w ''compression'' = Some (IntV 9) \<and>
      (path_suffix sourcefilename = ''.png'' \<longrightarrow>
         (\<forall>x0 y0 u. info ''physical'' = Some (PhysicalV x0 y0 u) \<longrightarrow>
            wr_info w ''physical'' = Some (PhysicalV (size' * x0) (size' * y0) u)) \<and>
         (info ''physical'' = None \<longrightarrow>
            wr_info w ''physical'' = Some (PhysicalV (size' * 3780) (size' * 3780) True))) \<and>
      (path_suffix sourcefilename \<noteq> ''.png'' \<longrightarrow>
         wr_info w ''physical'' = Some (PhysicalV (size' * 3780) (size' * 3780) True)))"
  (is "?A1 \<and> ?A2 \<and> ?B \<and> ?C \<and> ?D \<and> ?E")
proof -
  have a1: ?A1 by (simp add: fix_resolution_physical)
  have a2: ?A2 by (simp add: fix_resolution_absent)
  have b: ?B
  proof (intro allI impI conjI; (elim conjE)?)
    fix source X Y Z maxcolors image3d chosen Y' X' Z' x0 y0 u
    assume d: "png2list source = Inr (X, Y, Z, maxcolors, image3d, info)"
      and c: "choose_scaler sc size' sfx = Some chosen"
      and r: "rectangular Y' X' Z' (chosen image3d)" "0 < Y'" "0 < X'"
      and p: "info ''physical'' = Some (PhysicalV x0 y0 u)"
    show "\<exists>w. scale_file_png sc source size' sfx = Inr w \<and>
              wr_width w = X' \<and> wr_height w = Y' \<and>
              wr_info w ''physical'' = Some (PhysicalV (size' * x0) (size' * y0) u) \<and>
              wr_info w ''compression'' = Some (IntV 9)"
      using scale_file_png_writes[OF d c fix_resolution_physical[where info = info and n = size', OF p] r]
      by (simp add: adjusted_entries)
  next
    fix source X Y Z maxcolors image3d chosen Y' X' Z'
    assume d: "png2list source = Inr (X, Y, Z, maxcolors, image3d, info)"
      and c: "choose_scaler sc size' sfx = Some chosen"
      and r: "rectangular Y' X' Z' (chosen image3d)" "0 < Y'" "0 < X'"
      and p: "info ''physical'' = None"
    show "\<exists>w. scale_file_png sc source size' sfx = Inr w \<and>
              wr_width w = X' \<and> wr_height w = Y' \<and>
              wr_info w ''physical'' = Some (PhysicalV (size' * 3780) (size' * 3780) True) \<and>
              wr_info w ''compression'' = Some (IntV 9)"
      using scale_file_png_writes[OF d c fix_resolution_absent[where info = info and n = size', OF p] r]
      by (simp add: adjusted_entries)
  qed
  have c: ?C
  proof (intro allI impI conjI; (elim conjE)?)
    fix sourcefilename resultfilename :: path
    fix png_file pnm_file Z maxcolors image3d chosen Y' X' Z' x0 y0 u
    assume s: "path_str sourcefilename \<noteq> []"
      and d: "FileNx_read sourcefilename png_file pnm_file = Inr (Z, maxcolors, image3d, info)"
      and c: "choose_scaler sc size' sfx = Some chosen"
      and t: "path_str resultfilename \<noteq> []" "path_suffix resultfilename = ''.png''"
      and r: "rectangular Y' X' Z' (chosen image3d)" "0 < Y'" "0 < X'"
      and p: "info ''physical'' = Some (PhysicalV x0 y0 u)"
    show "\<exists>w. FileNx sc sourcefilename png_file pnm_file resultfilename size' sfx =
                Inr (Wrote_png w) \<and>
              wr_info w ''physical'' = Some (PhysicalV (size' * x0) (size' * y0) u) \<and>
              wr_info w ''compression'' = Some (IntV 9)"
      using FileNx_writes_png[OF s d c fix_resolution_physical[where info = info and n = size', OF p] t r]
      by (simp add: adjusted_entries)
  next
    fix sourcefilename resultfilename :: path
    fix png_file pnm_file Z maxcolors image3d chosen Y' X' Z'
    assume s: "path_str sourcefilename \<noteq> []"
      and d: "FileNx_read sourcefilename png_file pnm_file = Inr (Z, maxcolors, image3d, info)"
      and c: "choose_scaler sc size' sfx = Some chosen"
      and t: "path_str resultfilename \<noteq> []" "path_suffix resultfilename = ''.png''"
      and r: "rectangular Y' X' Z' (chosen image3d)" "0 < Y'" "0 < X'"
      and p: "info ''physical'' = None"
    show "\<exists>w. FileNx sc sourcefilename png_file pnm_file resultfilename size' sfx =
                Inr (Wrote_png w) \<and>
              wr_info w ''physical'' = Some (PhysicalV (size' * 3780) (size' * 3780) True) \<and>
              wr_info w ''compression'' = Some (IntV 9)"
      using FileNx_writes_png[OF s d c fix_resolution_absent[where info = info and n = size', OF p] t r]
      by (simp add: adjusted_entries)
  qed
  have d: ?D using drivers_write_adjusted[of sc _ _ _ info size' sfx] by blast
  have e: ?E using drivers_write_adjusted[of sc _ _ _ info size' sfx] by blast
  show ?thesis using a1 a2 b c d e by (intro conjI)
qed


lemma decode_example:
  assumes "info ''planes'' = Some (IntV 3)" and "info ''bitdepth'' = Some (IntV 8)"
  shows "png2list (2, 2, [[1, 2, 3, 4, 5, 6], [7, 8, 9, 10, 11, 12]], info) =
           Inr (2, 2, 3, 255, [[[1, 2, 3], [4, 5, 6]], [[7, 8, 9], [10, 11, 12]]], info)"
proof -
  let ?pixels = "[[1, 2, 3, 4, 5, 6], [7, 8, 9, 10, 11, 12::int]]"
  have m: "maxcolors_of (IntV 8) = Some 255" by (simp add: maxcolors_of_def)
  have "png2list (2, 2, ?pixels, info) =
          Inr (2, 2, 3, 255, partition_rows 2 2 (nat 3) ?pixels, info)"
    using assms by (intro png2list_decodes[OF _ _ m]) (auto simp: less_Suc_eq numeral_2_eq_2)
  moreover have "partition_rows 2 2 (nat 3) ?pixels =
                   [[[1, 2, 3], [4, 5, 6]], [[7, 8, 9], [10, 11, 12]]]"
    by (simp add: partition_rows_def upt_rec numeral_nat)
  ultimately show ?thesis by simp
qed

lemma nearest_example:
  "rectangular 4 4 3 (nearest 2 [[[1, 2, 3], [4, 5, 6]], [[7, 8, 9], [10, 11, 12]]])"
  "rectangular 6 6 3 (nearest 3 [[[1, 2, 3], [4, 5, 6]], [[7, 8, 9], [10, 11, 12]]])"
  by (simp_all add: nearest_def rectangular_def numeral_2_eq_2 numeral_3_eq_3)

lemma choose_nearest:
  "choose_scaler nearest_scalers 2 False = Some (nearest 2)"
  "choose_scaler nearest_scalers 3 True = Some (nearest 3)"
  by (simp_all add: choose_scaler_def nearest_scalers_def)

theorem resolution_and_compression_witness:
  "(\<exists>w. scale_file_png nearest_scalers
           (2, 2, [[1, 2, 3, 4, 5, 6], [7, 8, 9, 10, 11, 12]],
            [''planes'' \<mapsto> IntV 3, ''bitdepth'' \<mapsto> IntV 8,
             ''physical'' \<mapsto> PhysicalV 2835 2835 True]) 3 True = Inr w \<and>
         wr_width w = 6 \<and> wr_height w = 6 \<and>
         wr_info w ''physical'' = Some (PhysicalV 8505 8505 True) \<and>
         wr_info w ''compression'' = Some (IntV 9)) \<and>
   (\<exists>w. scale_file_png nearest_scalers
           (2, 2, [[1, 2, 3, 4, 5, 6], [7, 8, 9, 10, 11, 12]],
            [''planes'' \<mapsto> IntV 3, ''bitdepth'' \<mapsto> IntV 8]) 2 False = Inr w \<and>
         wr_width w = 4 \<and> wr_height w = 4 \<and>
         wr_info w ''physical'' = Some (PhysicalV 7560 7560 True) \<and>
         wr_info w ''compression'' = Some (IntV 9)) \<and>
   (\<exists>w. FileNx nearest_scalers \<lparr>path_str = ''in.png'', path_suffix = ''.png''\<rparr>
           (2, 2, [[1, 2, 3, 4, 5, 6], [7, 8, 9, 10, 11, 12]],
            [''planes'' \<mapsto> IntV 3, ''bitdepth'' \<mapsto> IntV 8,
             ''physical'' \<mapsto> PhysicalV 2835 2835 True])
           (0, 0, 0, 0, []) \<lparr>path_str = ''out.png'', path_suffix = ''.png''\<rparr> 2 False =
           Inr (Wrote_png w) \<and>
         wr_info w ''physical'' = Some (PhysicalV 5670 5670 True) \<and>
         wr_info w ''compression'' = Some (IntV 9)) \<and>
   fix_resolution 3 [''physical'' \<mapsto> PhysicalV 2835 2835 False] =
     Inr [''physical'' \<mapsto> PhysicalV 8505 8505 False, ''compression'' \<mapsto> IntV 9]"
proof -
  let ?pixels = "[[1, 2, 3, 4, 5, 6], [7, 8, 9, 10, 11, 12::int]]"
  let ?image = "[[[1, 2, 3], [4, 5, 6]], [[7, 8, 9], [10, 11, 12::int]]]"
  let ?with = "[''planes'' \<mapsto> IntV 3, ''bitdepth'' \<mapsto> IntV 8,
                ''physical'' \<mapsto> PhysicalV 2835 2835 True]"
  let ?without = "[''planes'' \<mapsto> IntV 3, ''bitdepth'' \<mapsto> IntV 8]"
  let ?src = "\<lparr>path_str = ''in.png'', path_suffix = ''.png''\<rparr>"
  let ?res = "\<lparr>path_str = ''out.png'', path_suffix = ''.png''\<rparr>"
  have dw: "png2list (2, 2, ?pixels, ?with) = Inr (2, 2, 3, 255, ?image, ?with)"
    by (rule decode_example) simp_all
  have dn: "png2list (2, 2, ?pixels, ?without) = Inr (2, 2, 3, 255, ?image, ?without)"
    by (rule decode_example) simp_all
  have pw: "?with ''physical'' = Some (PhysicalV 2835 2835 True)" by simp
  have pn: "?without ''physical'' = None" by simp
  have rd: "FileNx_read ?src (2, 2, ?pixels, ?with) (0, 0, 0, 0, []) =
              Inr (3, 255, ?image, ?with)"
    using dw by (simp add: FileNx_read_def)
  note t3 = resolution_and_compression
              [where info = ?with and size' = 3 and sfx = True and sc = nearest_scalers]
  note t2 = resolution_and_compression
              [where info = ?without and size' = 2 and sfx = False and sc = nearest_scalers]
  note f2 = resolution_and_compression
              [where info = ?with and size' = 2 and sfx = False and sc = nearest_scalers]
  note a = resolution_and_compression
              [where info = "[''physical'' \<mapsto> PhysicalV 2835 2835 False]" and size' = 3]
  have 1: "\<exists>w. scale_file_png nearest_scalers (2, 2, ?pixels, ?with) 3 True = Inr w \<and>
         wr_width w = 6 \<and> wr_height w = 6 \<and>
         wr_info w ''physical'' = Some (PhysicalV (3 * 2835) (3 * 2835) True) \<and>
         wr_info w ''compression'' = Some (IntV 9)"
    using t3[THEN conjunct2, THEN conjunct2, THEN conjunct1, rule_format,
             THEN conjunct1, rule_format, OF _ pw,
             where source = "(2, 2, ?pixels, ?with)" and chosen = "nearest 3"
               and Y' = 6 and X' = 6 and Z' = 3]
          dw choose_nearest(2) nearest_example(2)
    by simp
  have 2: "\<exists>w. scale_file_png nearest_scalers (2, 2, ?pixels, ?without) 2 False = Inr w \<and>
         wr_width w = 4 \<and> wr_height w = 4 \<and>
         wr_info w ''physical'' = Some (PhysicalV (2 * 3780) (2 * 3780) True) \<and>
         wr_info w ''compression'' = Some (IntV 9)"
    using t2[THEN conjunct2, THEN conjunct2, THEN conjunct1, rule_format,
             THEN conjunct2, rule_format, OF _ pn,
             where source = "(2, 2, ?pixels, ?without)" and chosen = "nearest 2"
               and Y' = 4 and X' = 4 and Z' = 3]
          dn choose_nearest(1) nearest_example(1)
    by simp
  have 3: "\<exists>w. FileNx nearest_scalers ?src (2, 2, ?pixels, ?with) (0, 0, 0, 0, []) ?res 2 False =
           Inr (Wrote_png w) \<and>
         wr_info w ''physical'' = Some (PhysicalV (2 * 2835) (2 * 2835) True) \<and>
         wr_info w ''compression'' = Some (IntV 9)"
    using f2[THEN conjunct2, THEN conjunct2, THEN conjunct2, THEN conjunct1, rule_format,
             THEN conjunct1, rule_format, OF _ pw,
             where sourcefilename = ?src and resultfilename = ?res and chosen = "nearest 2"
               and png_file = "(2, 2, ?pixels, ?with)" and pnm_file = "(0, 0, 0, 0, [])"
               and Y' = 4 and X' = 4 and Z' = 3]
          rd choose_nearest(1) nearest_example(1)
    by simp
  have 4: "fix_resolution 3 [''physical'' \<mapsto> PhysicalV 2835 2835 False] =
     Inr [''physical'' \<mapsto> PhysicalV (3 * 2835) (3 * 2835) False, ''compression'' \<mapsto> IntV 9]"
    using a[THEN conjunct1, rule_format, of 2835 2835 False] by simp
  show ?thesis using 1 2 3 4 by simp
qed

lemma feed_eligible:
  "feed size' sfx p = (if eligible p then [Apply_async (task_for size' sfx p)] else [])"
  by (auto simp: feed_def eligible_def task_for_def)

lemma feeding:
  "concat (map (feed size' sfx) rglob) =
     map Apply_async (map (task_for size' sfx) (filter eligible rglob))"
  by (induction rglob) (simp_all add: feed_eligible)

lemma submitted_append: "submitted (es @ fs) = submitted es @ submitted fs"
  by (induction es rule: submitted.induct) simp_all

lemma submitted_Apply_async: "submitted (map (Apply_async \<circ> f) xs) = map f xs"
  by (induction xs) simp_all

lemma task_file_task_for: "task_file (task_for size' sfx p) = p"
  by (simp add: task_for_def)





lemma open_dialog_offers_iff:
  "open_dialog_offers ext \<longleftrightarrow> ext \<in> set [''.png'', ''.ppm'', ''.pgm'', ''.pbm'']"
  by (auto simp: open_dialog_offers_def FileNx_filetypes_def)

text \<open>
  Claim C9. The open dialog of \<open>FileNx\<close> offers the suffixes \<open>.png\<close>,
  \<open>.ppm\<close>, \<open>.pgm\<close> and \<open>.pbm\<close>, and \<open>FileNx\<close> reads a \<open>.pbm\<close> file
  through the PNM codec; \<open>FolderNx\<close> submits tasks for files with the suffixes
  \<open>.png\<close>, \<open>.ppm\<close> and \<open>.pgm\<close> only, so a \<open>.pbm\<close> file of the tree gets
  no task.
\<close>

theorem pbm_single_file_only:
  "(\<forall>ext \<in> set [''.png'', ''.ppm'', ''.pgm'', ''.pbm'']. open_dialog_offers ext) \<and>
   (\<forall>sourcefilename png_file X Y Z maxcolors image3d.
      path_suffix sourcefilename = ''.pbm'' \<longrightarrow>
      (\<exists>info. FileNx_read sourcefilename png_file (X, Y, Z, maxcolors, image3d) =
                 Inr (Z, maxcolors, image3d, info))) \<and>
   (\<forall>t \<in> set (submitted (FolderNx sourcedir rglob size' sfx)).
      path_suffix (task_file t) \<in> {''.png'', ''.ppm'', ''.pgm''}) \<and>
   (\<forall>p. path_suffix p = ''.pbm'' \<longrightarrow>
      feed size' sfx p = [] \<and>
      p \<notin> task_file ` set (submitted (FolderNx sourcedir rglob size' sfx)))"
proof -
  have s: "submitted (FolderNx sourcedir rglob size' sfx) =
             (if sourcedir = [] then []
              else map (task_for size' sfx) (filter eligible rglob))"
    by (simp add: FolderNx_def feeding submitted_append submitted_Apply_async)
  have a: "\<forall>ext \<in> set [''.png'', ''.ppm'', ''.pgm'', ''.pbm'']. open_dialog_offers ext"
    by (simp add: open_dialog_offers_iff)
  have b: "\<exists>info. FileNx_read sourcefilename png_file (X, Y, Z, maxcolors, image3d) =
                    Inr (Z, maxcolors, image3d, info)"
    if "path_suffix sourcefilename = ''.pbm''"
    for sourcefilename png_file X Y Z maxcolors image3d
    using that by (simp add: FileNx_read_def Let_def)
  have c: "\<forall>t \<in> set (submitted (FolderNx sourcedir rglob size' sfx)).
             path_suffix (task_file t) \<in> {''.png'', ''.ppm'', ''.pgm''}"
    unfolding s by (auto simp: task_file_task_for eligible_def)
  have d: "feed size' sfx p = [] \<and>
           p \<notin> task_file ` set (submitted (FolderNx sourcedir rglob size' sfx))"
    if "path_suffix p = ''.pbm''" for p
    using that unfolding s by (auto simp: feed_def task_file_task_for eligible_def)
  show ?thesis using a b c d by blast
qed

theorem pbm_single_file_only_witness:
  "open_dialog_offers ''.pbm'' \<and>
   feed 2 False \<lparr>path_str = ''sprites/c.pbm'', path_suffix = ''.pbm''\<rparr> = [] \<and>
   \<lparr>path_str = ''sprites/c.pbm'', path_suffix = ''.pbm''\<rparr> \<notin>
     task_file ` set (submitted (FolderNx ''sprites''
       [\<lparr>path_str = ''sprites/a.png'', path_suffix = ''.png''\<rparr>,
        \<lparr>path_str = ''sprites/c.pbm'', path_suffix = ''.pbm''\<rparr>] 2 False))"
  using pbm_single_file_only
    [where sourcedir = "''sprites''" and size' = 2 and sfx = False
       and rglob = "[\<lparr>path_str = ''sprites/a.png'', path_suffix = ''.png''\<rparr>,
                     \<lparr>path_str = ''sprites/c.pbm'', path_suffix = ''.pbm''\<rparr>]"]
  by simp

end
